theory Spec2Isabelle
  imports Main "HOL-Library.Sublist"
begin

section \<open>Authorization types (types/authorization)\<close>

text \<open>
  At run time a \<open>ResourceType\<close>, an \<open>AllPermissionActions\<close>, a \<open>PermissionScope\<close> and a
  \<open>PermissionClaim\<close> are plain JavaScript strings: the TypeScript union types are erased,
  and the utilities validate them again for that reason. The model therefore keeps them
  as strings and lists the members of each union type. Of a role, a user and a
  definition of the configuration, the records keep the fields that the utilities read;
  descriptions, labels, icons, time stamps and metadata are left out.
\<close>

type_synonym ResourceType = string
type_synonym AllPermissionActions = string
type_synonym PermissionScope = string
type_synonym PermissionClaim = string

definition ResourceType :: "ResourceType list" where
  "ResourceType =
     [''employee'', ''member'', ''service'', ''application'', ''user'', ''contact'',
      ''file'', ''website'', ''announcement'', ''feedback'', ''billing'', ''report'',
      ''training'', ''equipment'']"

definition PermissionAction :: "AllPermissionActions list" where
  "PermissionAction = [''view'', ''create'', ''update'', ''delete'']"

definition AdvancedPermissionAction :: "AllPermissionActions list" where
  "AdvancedPermissionAction =
     [''approve'', ''reject'', ''assign'', ''publish'', ''unpublish'', ''download'',
      ''upload'', ''impersonate'', ''configure'', ''provision'', ''suspend'', ''restore'',
      ''audit'']"

definition AllPermissionActions :: "AllPermissionActions list" where
  "AllPermissionActions = PermissionAction @ AdvancedPermissionAction"

definition PermissionScope :: "PermissionScope list" where
  "PermissionScope =
     [''all'', ''owned'', ''assigned'', ''district'', ''department'', ''region'', ''none'']"

record Role =
  role_id :: string
  role_name :: string
  inheritsFrom :: "string list option"
  permissions :: "PermissionClaim list"
  role_isActive :: bool

record AuthorizedUser =
  user_id :: string
  user_email :: string
  roles :: "string list"
  directPermissions :: "PermissionClaim list option"
  isActive :: bool

section \<open>Configuration (config/authorization-config)\<close>

datatype RiskLevel = Low | Medium | High | Critical

datatype Category = Core | Service | Administrative | Technical

datatype ActionCategory = Read | Write | Admin | Special

record ResourceDefinition =
  res_category :: Category
  defaultScopes :: "PermissionScope list"
  res_riskLevel :: RiskLevel

record ActionDefinition =
  act_riskLevel :: RiskLevel
  act_category :: ActionCategory

record ScopeDefinition =
  level :: nat

datatype Feature =
    enableAuditLogging | enableRealTimeUpdates | enableAdvancedPermissions
  | enableRoleInheritance | enableTemporaryPermissions | enableApprovalWorkflow

fun isFeatureEnabled :: "Feature \<Rightarrow> bool" where
  "isFeatureEnabled enableAuditLogging = True"
| "isFeatureEnabled enableRealTimeUpdates = False"
| "isFeatureEnabled enableAdvancedPermissions = True"
| "isFeatureEnabled enableRoleInheritance = True"
| "isFeatureEnabled enableTemporaryPermissions = False"
| "isFeatureEnabled enableApprovalWorkflow = False"

definition RESOURCE_DEFINITIONS :: "(ResourceType \<times> ResourceDefinition) list" where
  "RESOURCE_DEFINITIONS =
     [(''employee'', \<lparr>res_category = Core,
         defaultScopes = [''all'', ''department'', ''assigned'', ''owned''], res_riskLevel = High\<rparr>),
      (''member'', \<lparr>res_category = Core,
         defaultScopes = [''all'', ''region'', ''assigned''], res_riskLevel = Medium\<rparr>),
      (''service'', \<lparr>res_category = Service,
         defaultScopes = [''all'', ''assigned''], res_riskLevel = High\<rparr>),
      (''application'', \<lparr>res_category = Technical,
         defaultScopes = [''all'', ''assigned''], res_riskLevel = Medium\<rparr>),
      (''user'', \<lparr>res_category = Administrative,
         defaultScopes = [''all'', ''district'', ''assigned''], res_riskLevel = Medium\<rparr>),
      (''contact'', \<lparr>res_category = Administrative,
         defaultScopes = [''all'', ''district''], res_riskLevel = Low\<rparr>),
      (''file'', \<lparr>res_category = Technical,
         defaultScopes = [''all'', ''department'', ''assigned'', ''owned''], res_riskLevel = Medium\<rparr>),
      (''website'', \<lparr>res_category = Administrative,
         defaultScopes = [''all''], res_riskLevel = Medium\<rparr>),
      (''announcement'', \<lparr>res_category = Administrative,
         defaultScopes = [''all'', ''district''], res_riskLevel = Low\<rparr>),
      (''feedback'', \<lparr>res_category = Service,
         defaultScopes = [''all'', ''assigned''], res_riskLevel = Low\<rparr>),
      (''billing'', \<lparr>res_category = Administrative,
         defaultScopes = [''all'', ''district''], res_riskLevel = Critical\<rparr>),
      (''report'', \<lparr>res_category = Administrative,
         defaultScopes = [''all'', ''department'', ''assigned''], res_riskLevel = Medium\<rparr>),
      (''training'', \<lparr>res_category = Service,
         defaultScopes = [''all''], res_riskLevel = Low\<rparr>),
      (''equipment'', \<lparr>res_category = Technical,
         defaultScopes = [''all'', ''assigned''], res_riskLevel = Medium\<rparr>)]"

definition ACTION_DEFINITIONS :: "(AllPermissionActions \<times> ActionDefinition) list" where
  "ACTION_DEFINITIONS =
     [(''view'', \<lparr>act_riskLevel = Low, act_category = Read\<rparr>),
      (''create'', \<lparr>act_riskLevel = Medium, act_category = Write\<rparr>),
      (''update'', \<lparr>act_riskLevel = Medium, act_category = Write\<rparr>),
      (''delete'', \<lparr>act_riskLevel = Critical, act_category = Admin\<rparr>),
      (''approve'', \<lparr>act_riskLevel = High, act_category = Admin\<rparr>),
      (''reject'', \<lparr>act_riskLevel = Medium, act_category = Admin\<rparr>),
      (''assign'', \<lparr>act_riskLevel = Medium, act_category = Admin\<rparr>),
      (''publish'', \<lparr>act_riskLevel = Medium, act_category = Write\<rparr>),
      (''unpublish'', \<lparr>act_riskLevel = Medium, act_category = Write\<rparr>),
      (''download'', \<lparr>act_riskLevel = Low, act_category = Read\<rparr>),
      (''upload'', \<lparr>act_riskLevel = Medium, act_category = Write\<rparr>),
      (''impersonate'', \<lparr>act_riskLevel = Critical, act_category = Special\<rparr>),
      (''configure'', \<lparr>act_riskLevel = High, act_category = Admin\<rparr>),
      (''provision'', \<lparr>act_riskLevel = High, act_category = Admin\<rparr>),
      (''suspend'', \<lparr>act_riskLevel = High, act_category = Admin\<rparr>),
      (''restore'', \<lparr>act_riskLevel = High, act_category = Admin\<rparr>),
      (''audit'', \<lparr>act_riskLevel = Medium, act_category = Read\<rparr>)]"

definition SCOPE_DEFINITIONS :: "(PermissionScope \<times> ScopeDefinition) list" where
  "SCOPE_DEFINITIONS =
     [(''none'', \<lparr>level = 0\<rparr>),
      (''owned'', \<lparr>level = 1\<rparr>),
      (''assigned'', \<lparr>level = 2\<rparr>),
      (''district'', \<lparr>level = 3\<rparr>),
      (''department'', \<lparr>level = 4\<rparr>),
      (''region'', \<lparr>level = 5\<rparr>),
      (''all'', \<lparr>level = 6\<rparr>)]"

subsection \<open>Reading a property of an object literal\<close>

text \<open>
  The three tables are object literals, and the utilities read them with \<open>TABLE[key]\<close>
  and test the result for truthiness. Such a read follows the prototype chain: a key
  that is not an own property of the literal but names a property of
  \<open>Object.prototype\<close> yields that inherited function or object, which is truthy and
  has none of the fields of a definition. Every own property of the tables is an object,
  hence truthy.
\<close>

datatype 'a js_prop = Own 'a | Inherited | Undefined

definition Object_prototype_keys :: "string list" where
  "Object_prototype_keys =
     [''constructor'', ''hasOwnProperty'', ''isPrototypeOf'', ''propertyIsEnumerable'',
      ''toLocaleString'', ''toString'', ''valueOf'', ''__proto__'',
      ''__defineGetter__'', ''__defineSetter__'', ''__lookupGetter__'', ''__lookupSetter__'']"

definition js_get :: "(string \<times> 'a) list \<Rightarrow> string \<Rightarrow> 'a js_prop" where
  "js_get table key =
     (case map_of table key of
        Some v \<Rightarrow> Own v
      | None \<Rightarrow> if key \<in> set Object_prototype_keys then Inherited else Undefined)"

fun truthy :: "'a js_prop \<Rightarrow> bool" where
  "truthy (Own v) = True"
| "truthy Inherited = True"
| "truthy Undefined = False"

section \<open>Claim codec (lib/authorization/permission-utils)\<close>

text \<open>
  Every \<open>throw\<close> of the utilities is a value of \<open>error\<close>. The constructors name the
  throw sites; \<open>TypeError\<close> is the run-time error of reading \<open>includes\<close> from
  \<open>undefined\<close>. Output on the console is not part of the model.
\<close>

datatype error =
    InvalidResource string
  | InvalidAction string
  | InvalidScope string
  | Required
  | InvalidFormat
  | UnknownResource string
  | UnknownAction string
  | UnknownScope string
  | TypeError

fun error_message :: "error \<Rightarrow> string" where
  "error_message (InvalidResource r) = ''Invalid resource type: '' @ r"
| "error_message (InvalidAction a) = ''Invalid action: '' @ a"
| "error_message (InvalidScope s) = ''Invalid scope: '' @ s"
| "error_message Required = ''This field is required.''"
| "error_message InvalidFormat = ''Invalid format. Please check your input.''"
| "error_message (UnknownResource r) = ''Unknown resource type: '' @ r"
| "error_message (UnknownAction a) = ''Unknown action: '' @ a"
| "error_message (UnknownScope s) = ''Unknown scope: '' @ s"
| "error_message TypeError = ''Cannot read properties of undefined (reading includes)''"

text \<open>An error in a template string: its name, a colon and its message.\<close>

fun error_toString :: "error \<Rightarrow> string" where
  "error_toString TypeError = ''TypeError: '' @ error_message TypeError"
| "error_toString e = ''Error: '' @ error_message e"

definition createPermissionClaim ::
  "ResourceType \<Rightarrow> AllPermissionActions \<Rightarrow> PermissionScope \<Rightarrow> error + PermissionClaim" where
  "createPermissionClaim resource action scope =
     (if resource = [] \<or> \<not> truthy (js_get RESOURCE_DEFINITIONS resource)
        then Inl (InvalidResource resource)
      else if action = [] \<or> \<not> truthy (js_get ACTION_DEFINITIONS action)
        then Inl (InvalidAction action)
      else if scope = [] \<or> \<not> truthy (js_get SCOPE_DEFINITIONS scope)
        then Inl (InvalidScope scope)
      else case js_get RESOURCE_DEFINITIONS resource of
             Own resourceDef \<Rightarrow> Inr (resource @ '':'' @ action @ '':'' @ scope)
           | _ \<Rightarrow> Inl TypeError)"

text \<open>\<open>claim.split(":")\<close>: the segments between the colons, empty ones included.\<close>

fun split_colon :: "string \<Rightarrow> string list" where
  "split_colon [] = [[]]"
| "split_colon (c # cs) =
     (if c = CHR '':'' then [] # split_colon cs
      else case split_colon cs of
             [] \<Rightarrow> [[c]]
           | p # ps \<Rightarrow> (c # p) # ps)"

definition parsePermissionClaim ::
  "PermissionClaim \<Rightarrow> error + (ResourceType \<times> AllPermissionActions \<times> PermissionScope)" where
  "parsePermissionClaim claim =
     (if claim = [] then Inl Required
      else case split_colon claim of
             [resource, action, scope] \<Rightarrow>
               if \<not> truthy (js_get RESOURCE_DEFINITIONS resource) then Inl (UnknownResource resource)
               else if \<not> truthy (js_get ACTION_DEFINITIONS action) then Inl (UnknownAction action)
               else if \<not> truthy (js_get SCOPE_DEFINITIONS scope) then Inl (UnknownScope scope)
               else Inr (resource, action, scope)
           | _ \<Rightarrow> Inl InvalidFormat)"

section \<open>Scope and risk comparison\<close>

text \<open>\<open>riskOrder = { critical: 4, high: 3, medium: 2, low: 1 }\<close>\<close>

fun riskOrder :: "RiskLevel \<Rightarrow> nat" where
  "riskOrder Critical = 4"
| "riskOrder High = 3"
| "riskOrder Medium = 2"
| "riskOrder Low = 1"

text \<open>
  \<open>ACTION_DEFINITIONS[action]?.riskLevel || "low"\<close> and its two siblings: an inherited
  property has no \<open>riskLevel\<close> and no \<open>level\<close>, so the default applies to it as well.
\<close>

definition actionRiskLevel :: "AllPermissionActions \<Rightarrow> RiskLevel" where
  "actionRiskLevel action =
     (case js_get ACTION_DEFINITIONS action of Own d \<Rightarrow> act_riskLevel d | _ \<Rightarrow> Low)"

definition resourceRiskLevel :: "ResourceType \<Rightarrow> RiskLevel" where
  "resourceRiskLevel resource =
     (case js_get RESOURCE_DEFINITIONS resource of Own d \<Rightarrow> res_riskLevel d | _ \<Rightarrow> Low)"

definition scopeLevel :: "PermissionScope \<Rightarrow> nat" where
  "scopeLevel scope =
     (case js_get SCOPE_DEFINITIONS scope of Own d \<Rightarrow> level d | _ \<Rightarrow> 0)"

text \<open>The \<open>try\<close> of \<open>isPermissionStronger\<close> catches a failed parse and returns \<open>false\<close>.\<close>

definition isPermissionStronger :: "PermissionClaim \<Rightarrow> PermissionClaim \<Rightarrow> bool" where
  "isPermissionStronger permA permB =
     (case parsePermissionClaim permA of
        Inl e \<Rightarrow> False
      | Inr (resA, actA, scopeA) \<Rightarrow>
          (case parsePermissionClaim permB of
             Inl e \<Rightarrow> False
           | Inr (resB, actB, scopeB) \<Rightarrow>
               if resA \<noteq> resB then False
               else if actA \<noteq> actB
                 then riskOrder (actionRiskLevel actA) > riskOrder (actionRiskLevel actB)
               else scopeLevel scopeA > scopeLevel scopeB))"

text \<open>
  \<open>determineAccessRiskLevel\<close>: the keys of its \<open>riskOrder\<close> literal are, in order,
  low, medium, high, critical, and \<open>maxRisk\<close> is between 1 and 4.
\<close>

definition determineAccessRiskLevel ::
  "ResourceType \<Rightarrow> AllPermissionActions \<Rightarrow> PermissionScope \<Rightarrow> RiskLevel" where
  "determineAccessRiskLevel resource action scope =
     (let resourceRisk = resourceRiskLevel resource;
          actionRisk = actionRiskLevel action;
          lvl = scopeLevel scope;
          scopeRisk = (if lvl \<ge> 5 then High else if lvl \<ge> 3 then Medium else Low);
          maxRisk = max (riskOrder resourceRisk) (max (riskOrder actionRisk) (riskOrder scopeRisk))
      in [Low, Medium, High, Critical] ! (maxRisk - 1))"

subsection \<open>The orders as the specification words them\<close>

text \<open>
  The specification fixes the breadth of a scope as none=0, owned=1, assigned=2,
  district=3, department=4, region=5, all=6, and ranks risk as
  critical > high > medium > low. These two definitions follow those words, not the
  configuration tables; the comparator is compared with them.
\<close>

definition spec_scopeBreadth :: "PermissionScope \<Rightarrow> nat" where
  "spec_scopeBreadth s =
     (if s = ''none'' then 0 else if s = ''owned'' then 1 else if s = ''assigned'' then 2
      else if s = ''district'' then 3 else if s = ''department'' then 4
      else if s = ''region'' then 5 else 6)"

fun spec_riskHigher :: "RiskLevel \<Rightarrow> RiskLevel \<Rightarrow> bool" where
  "spec_riskHigher Critical x = (x \<noteq> Critical)"
| "spec_riskHigher High x = (x = Medium \<or> x = Low)"
| "spec_riskHigher Medium x = (x = Low)"
| "spec_riskHigher Low x = False"

section \<open>Role resolver\<close>

text \<open>
  Both functions of the resolver wrap their body in a \<open>try\<close> whose \<open>catch\<close> answers
  \<open>false\<close>, respectively the empty array. No operation of the body throws on a role
  or a role list; what the \<open>catch\<close> can meet is an error of the engine itself, the
  call stack exhausted by an inheritance chain of thousands of roles. The functions
  below recurse without a bound on the depth, so they describe the resolver on chains
  that the engine's stack can hold, and give the \<open>catch\<close> no branch.

  A JavaScript \<open>Set\<close> of claims keeps its members in insertion order without
  duplicates, and \<open>Array.from\<close> lists them in that order: it is a list to which
  \<open>add\<close> appends only a new member. The \<open>visited\<close> set is only extended and
  tested, so it is a plain set of role ids.
\<close>

definition Set_add :: "'a \<Rightarrow> 'a list \<Rightarrow> 'a list" where
  "Set_add x xs = (if x \<in> set xs then xs else xs @ [x])"

definition new_Set :: "'a list \<Rightarrow> 'a list" where
  "new_Set xs = fold Set_add xs []"

text \<open>
  \<open>roleHasPermission\<close>: the loop over \<open>role.inheritsFrom\<close> returns at the first parent
  that has the permission; every recursive call receives its own copy of \<open>visited\<close>,
  taken after \<open>role.id\<close> was added.
\<close>

function roleHasPermission ::
  "Role \<Rightarrow> PermissionClaim \<Rightarrow> Role list \<Rightarrow> string set \<Rightarrow> bool" where
  "roleHasPermission role permissionToCheck allRoles visited =
     (if role_id role \<in> visited then False
      else if \<not> role_isActive role then False
      else if permissionToCheck \<in> set (permissions role) then True
      else (case inheritsFrom role of
              None \<Rightarrow> False
            | Some parents \<Rightarrow>
                if isFeatureEnabled enableRoleInheritance \<and> parents \<noteq> []
                then list_ex
                       (\<lambda>parentRoleId.
                          case find (\<lambda>r. role_id r = parentRoleId) allRoles of
                            None \<Rightarrow> False
                          | Some parentRole \<Rightarrow>
                              roleHasPermission parentRole permissionToCheck allRoles
                                (insert (role_id role) visited))
                       parents
                else False))"
  by pat_completeness auto
termination
proof (relation "measure (\<lambda>(role, p, allRoles, visited).
                   card ((insert (role_id role) (role_id ` set allRoles)) - visited))")
  show "wf (measure (\<lambda>(role, p, allRoles, visited).
                   card ((insert (role_id role) (role_id ` set allRoles)) - visited)))"
    by simp
next
  fix role :: Role and permissionToCheck :: PermissionClaim and allRoles :: "Role list"
    and visited :: "string set" and parents parentRoleId parentRole
  assume nv: "role_id role \<notin> visited"
    and f: "find (\<lambda>r. role_id r = parentRoleId) allRoles = Some parentRole"
  from f have "parentRole \<in> set allRoles"
    by (auto simp: find_Some_iff)
  then have eq: "insert (role_id parentRole) (role_id ` set allRoles) = role_id ` set allRoles"
    by auto
  have "(role_id ` set allRoles) - insert (role_id role) visited
          \<subset> (insert (role_id role) (role_id ` set allRoles)) - visited"
    using nv by auto
  then have "card ((role_id ` set allRoles) - insert (role_id role) visited)
          < card ((insert (role_id role) (role_id ` set allRoles)) - visited)"
    by (intro psubset_card_mono) auto
  then show "((parentRole, permissionToCheck, allRoles, insert (role_id role) visited),
              (role, permissionToCheck, allRoles, visited))
             \<in> measure (\<lambda>(role, p, allRoles, visited).
                   card ((insert (role_id role) (role_id ` set allRoles)) - visited))"
    using eq by simp
qed

text \<open>
  \<open>getRoleEffectivePermissions\<close>: a parent is looked up among the active roles only,
  and its permissions are added to the set of the role.
\<close>

function getRoleEffectivePermissions ::
  "Role \<Rightarrow> Role list \<Rightarrow> string set \<Rightarrow> PermissionClaim list" where
  "getRoleEffectivePermissions role allRoles visited =
     (if role_id role \<in> visited then []
      else (case inheritsFrom role of
              None \<Rightarrow> new_Set (permissions role)
            | Some parents \<Rightarrow>
                if isFeatureEnabled enableRoleInheritance \<and> parents \<noteq> []
                then fold
                       (\<lambda>parentRoleId effectivePermissions.
                          case find (\<lambda>r. role_id r = parentRoleId \<and> role_isActive r) allRoles of
                            None \<Rightarrow> effectivePermissions
                          | Some parentRole \<Rightarrow>
                              fold Set_add
                                (getRoleEffectivePermissions parentRole allRoles
                                   (insert (role_id role) visited))
                                effectivePermissions)
                       parents (new_Set (permissions role))
                else new_Set (permissions role)))"
  by pat_completeness auto
termination
proof (relation "measure (\<lambda>(role, allRoles, visited).
                   card ((insert (role_id role) (role_id ` set allRoles)) - visited))")
  show "wf (measure (\<lambda>(role, allRoles, visited).
                   card ((insert (role_id role) (role_id ` set allRoles)) - visited)))"
    by simp
next
  fix role :: Role and allRoles :: "Role list" and visited :: "string set"
    and parents parentRoleId effectivePermissions parentRole
  assume nv: "role_id role \<notin> visited"
    and f: "find (\<lambda>r. role_id r = parentRoleId \<and> role_isActive r) allRoles = Some parentRole"
  from f have "parentRole \<in> set allRoles"
    by (auto simp: find_Some_iff)
  then have eq: "insert (role_id parentRole) (role_id ` set allRoles) = role_id ` set allRoles"
    by auto
  have "(role_id ` set allRoles) - insert (role_id role) visited
          \<subset> (insert (role_id role) (role_id ` set allRoles)) - visited"
    using nv by auto
  then have "card ((role_id ` set allRoles) - insert (role_id role) visited)
          < card ((insert (role_id role) (role_id ` set allRoles)) - visited)"
    by (intro psubset_card_mono) auto
  then show "((parentRole, allRoles, insert (role_id role) visited), (role, allRoles, visited))
             \<in> measure (\<lambda>(role, allRoles, visited).
                   card ((insert (role_id role) (role_id ` set allRoles)) - visited))"
    using eq by simp
qed

section \<open>Effective permissions of a user\<close>

text \<open>
  With \<open>sortByRisk\<close> the array is sorted in place by a comparator that parses both
  claims it is given, so the sort throws when the array has two or more members and
  one of them does not parse (which member's error is thrown depends on the order of
  the engine's comparisons; the model takes the first). Otherwise the sort, which is
  stable, orders the claims by descending risk of their action.
\<close>

definition claimActionRisk :: "PermissionClaim \<Rightarrow> nat" where
  "claimActionRisk claim =
     (case parsePermissionClaim claim of
        Inl e \<Rightarrow> 0
      | Inr (resource, action, scope) \<Rightarrow> riskOrder (actionRiskLevel action))"

definition sortByRisk :: "PermissionClaim list \<Rightarrow> error + PermissionClaim list" where
  "sortByRisk permissionsArray =
     (if length permissionsArray < 2 then Inr permissionsArray
      else case find (\<lambda>p. isl (parsePermissionClaim p)) permissionsArray of
             Some p \<Rightarrow> (case parsePermissionClaim p of Inl e \<Rightarrow> Inl e | Inr t \<Rightarrow> Inr permissionsArray)
           | None \<Rightarrow> Inr (sort_key (\<lambda>p. - int (claimActionRisk p)) permissionsArray))"

record EffectiveOptions =
  opt_sortByRisk :: bool

definition getUserEffectivePermissions ::
  "AuthorizedUser \<Rightarrow> Role list \<Rightarrow> EffectiveOptions \<Rightarrow> PermissionClaim list" where
  "getUserEffectivePermissions user allRoles options =
     (let effectivePermissions =
            new_Set (case directPermissions user of None \<Rightarrow> [] | Some ps \<Rightarrow> ps);
          userRoles = filter (\<lambda>role. role_id role \<in> set (roles user) \<and> role_isActive role) allRoles;
          permissionsArray =
            fold (\<lambda>role effectivePermissions.
                    fold Set_add (getRoleEffectivePermissions role allRoles {}) effectivePermissions)
                 userRoles effectivePermissions
      in if opt_sortByRisk options
         then (case sortByRisk permissionsArray of Inl e \<Rightarrow> [] | Inr sortedArray \<Rightarrow> sortedArray)
         else permissionsArray)"

section \<open>Decision cache\<close>

record CacheEntry =
  result :: bool
  timestamp :: int

type_synonym permissionCache = "string \<rightharpoonup> CacheEntry"

definition CACHE_TTL :: int where
  "CACHE_TTL = 5 * 60 * 1000"

text \<open>
  \<open>clearPermissionCache(userId?)\<close>: the test \<open>if (userId)\<close> takes the empty string
  for an absent id; with an id, every key that starts with the id followed by a colon
  is deleted.
\<close>

definition clearPermissionCache :: "string option \<Rightarrow> permissionCache \<Rightarrow> permissionCache" where
  "clearPermissionCache userId cache =
     (case userId of
        None \<Rightarrow> Map.empty
      | Some uid \<Rightarrow>
          if uid \<noteq> [] then (\<lambda>key. if prefix (uid @ '':'') key then None else cache key)
          else Map.empty)"

section \<open>Decision engine\<close>

text \<open>
  \<open>logAccessAttempt\<close> returns nothing and writes to the console only; its body is a
  \<open>try\<close> whose \<open>catch\<close> logs and returns, so no error leaves it.
\<close>

definition logAccessAttempt ::
  "AuthorizedUser option \<Rightarrow> ResourceType \<Rightarrow> AllPermissionActions \<Rightarrow> PermissionScope \<Rightarrow>
     bool \<Rightarrow> string \<Rightarrow> error + unit" where
  "logAccessAttempt user resource action scope granted reason =
     (if \<not> isFeatureEnabled enableAuditLogging then Inr ()
      else (case (Inr (determineAccessRiskLevel resource action scope) :: error + RiskLevel) of
              Inl e \<Rightarrow> Inr ()
            | Inr riskLevel \<Rightarrow> Inr ()))"

record Options =
  logAccess :: bool
  useCache :: "bool option"

text \<open>
  The \<open>try\<close> block of \<open>hasPermission\<close>. The two readings of \<open>Date.now()\<close> are the
  parameters \<open>now_check\<close> (when a cached entry is tested) and \<open>now_store\<close> (when the
  verdict is stored). The cache is returned with the result, also when the block throws.
\<close>

definition hasPermission_try ::
  "AuthorizedUser option \<Rightarrow> ResourceType \<Rightarrow> AllPermissionActions \<Rightarrow> PermissionScope \<Rightarrow>
     Role list \<Rightarrow> Options \<Rightarrow> int \<Rightarrow> int \<Rightarrow> permissionCache \<Rightarrow>
     (error + bool) \<times> permissionCache" where
  "hasPermission_try user resource action scope allRoles options now_check now_store cache =
     (case user of
        None \<Rightarrow>
          (case (if logAccess options
                 then logAccessAttempt None resource action scope False ''User not authenticated''
                 else Inr ()) of
             Inl e \<Rightarrow> (Inl e, cache)
           | Inr u \<Rightarrow> (Inr False, cache))
      | Some usr \<Rightarrow>
          if \<not> isActive usr then
            (case (if logAccess options
                   then logAccessAttempt user resource action scope False ''User account is inactive''
                   else Inr ()) of
               Inl e \<Rightarrow> (Inl e, cache)
             | Inr u \<Rightarrow> (Inr False, cache))
          else
            (case createPermissionClaim resource action scope of
               Inl e \<Rightarrow> (Inl e, cache)
             | Inr permissionToCheck \<Rightarrow>
                 let cacheKey = user_id usr @ '':'' @ permissionToCheck;
                     cached = (if useCache options \<noteq> Some False
                               then (case cache cacheKey of
                                       None \<Rightarrow> None
                                     | Some entry \<Rightarrow>
                                         if now_check - timestamp entry < CACHE_TTL
                                         then Some (result entry) else None)
                               else None)
                 in (case cached of
                       Some verdict \<Rightarrow> (Inr verdict, cache)
                     | None \<Rightarrow>
                         let direct = (case directPermissions usr of
                                         None \<Rightarrow> False
                                       | Some ps \<Rightarrow> permissionToCheck \<in> set ps);
                             userRoles = filter (\<lambda>role. role_id role \<in> set (roles usr) \<and>
                                                    role_isActive role) allRoles;
                             granting = (if direct then None
                                         else find (\<lambda>role. roleHasPermission role permissionToCheck
                                                             allRoles {}) userRoles);
                             hasAccess = (direct \<or> granting \<noteq> None);
                             source = (if direct then ''Direct Permission''
                                       else case granting of
                                              None \<Rightarrow> ''No Access''
                                            | Some role \<Rightarrow> ''Role: '' @ role_name role);
                             cache' = (if useCache options \<noteq> Some False
                                       then cache(cacheKey \<mapsto>
                                              \<lparr>result = hasAccess, timestamp = now_store\<rparr>)
                                       else cache)
                         in (case (if logAccess options
                                   then logAccessAttempt user resource action scope hasAccess source
                                   else Inr ()) of
                               Inl e \<Rightarrow> (Inl e, cache')
                             | Inr u \<Rightarrow> (Inr hasAccess, cache')))))"

text \<open>\<open>hasPermission\<close>: the \<open>catch\<close> logs the attempt when asked to and returns \<open>false\<close>.\<close>

definition hasPermission ::
  "AuthorizedUser option \<Rightarrow> ResourceType \<Rightarrow> AllPermissionActions \<Rightarrow> PermissionScope \<Rightarrow>
     Role list \<Rightarrow> Options \<Rightarrow> int \<Rightarrow> int \<Rightarrow> permissionCache \<Rightarrow>
     (error + bool) \<times> permissionCache" where
  "hasPermission user resource action scope allRoles options now_check now_store cache =
     (case hasPermission_try user resource action scope allRoles options now_check now_store cache of
        (Inr granted, cache') \<Rightarrow> (Inr granted, cache')
      | (Inl err, cache') \<Rightarrow>
          (case (if logAccess options
                 then logAccessAttempt user resource action scope False
                        (''Error: '' @ error_toString err)
                 else Inr ()) of
             Inl e \<Rightarrow> (Inl e, cache')
           | Inr u \<Rightarrow> (Inr False, cache')))"

record AuthorizationResult =
  authorized :: bool
  error :: "string option"

text \<open>
  \<open>checkAuthorization\<close> passes its options on, which have no \<open>useCache\<close>; its own
  \<open>catch\<close> answers an error with "Authorization check failed".
\<close>

definition checkAuthorization ::
  "AuthorizedUser option \<Rightarrow> ResourceType \<Rightarrow> AllPermissionActions \<Rightarrow> PermissionScope \<Rightarrow>
     Role list \<Rightarrow> bool \<Rightarrow> int \<Rightarrow> int \<Rightarrow> permissionCache \<Rightarrow>
     (error + AuthorizationResult) \<times> permissionCache" where
  "checkAuthorization user resource action scope allRoles opt_logAccess now_check now_store cache =
     (case user of
        None \<Rightarrow> (Inr \<lparr>authorized = False, error = Some ''User not authenticated''\<rparr>, cache)
      | Some usr \<Rightarrow>
          if \<not> isActive usr
          then (Inr \<lparr>authorized = False, error = Some ''User account is inactive''\<rparr>, cache)
          else (case hasPermission user resource action scope allRoles
                       \<lparr>logAccess = opt_logAccess, useCache = None\<rparr> now_check now_store cache of
                  (Inr granted, cache') \<Rightarrow>
                    (Inr \<lparr>authorized = granted,
                          error = (if granted then None
                                   else Some (''Insufficient permissions: '' @ resource @ '':'' @
                                              action @ '':'' @ scope))\<rparr>, cache')
                | (Inl e, cache') \<Rightarrow>
                    (Inr \<lparr>authorized = False, error = Some ''Authorization check failed''\<rparr>,
                     cache')))"

section \<open>Example roles and users\<close>

text \<open>
  Two active roles that inherit from each other, an inactive role and three users;
  they are the concrete inputs at which the properties below are evaluated.
\<close>

definition roleA :: Role where
  "roleA = \<lparr>role_id = ''a'', role_name = ''A'', inheritsFrom = Some [''b''],
            permissions = [''member:view:all'', ''service:view:all''], role_isActive = True\<rparr>"

definition roleB :: Role where
  "roleB = \<lparr>role_id = ''b'', role_name = ''B'', inheritsFrom = Some [''a''],
            permissions = [''service:view:all'', ''billing:view:all''], role_isActive = True\<rparr>"

definition retiredRole :: Role where
  "retiredRole = \<lparr>role_id = ''retired'', role_name = ''Retired'', inheritsFrom = None,
                  permissions = [''member:view:all''], role_isActive = False\<rparr>"

definition inactiveUser :: AuthorizedUser where
  "inactiveUser = \<lparr>user_id = ''u1'', user_email = ''u1@example.org'', roles = [''a''],
                   directPermissions = Some [''employee:view:owned''], isActive = False\<rparr>"

definition activeUser :: AuthorizedUser where
  "activeUser = \<lparr>user_id = ''u2'', user_email = ''u2@example.org'', roles = [''a''],
                 directPermissions = None, isActive = True\<rparr>"

definition colonUser :: AuthorizedUser where
  "colonUser = \<lparr>user_id = ''a:b'', user_email = ''ab@example.org'', roles = [],
                directPermissions = None, isActive = True\<rparr>"

definition defaultOptions :: Options where
  "defaultOptions = \<lparr>logAccess = False, useCache = None\<rparr>"

declare roleHasPermission.simps [simp del] getRoleEffectivePermissions.simps [simp del]

section \<open>Properties of the claim codec\<close>

lemma split_colon_no_colon:
  "CHR '':'' \<notin> set s \<Longrightarrow> split_colon s = [s]"
  by (induction s) auto

lemma split_colon_append:
  "CHR '':'' \<notin> set s \<Longrightarrow> split_colon (s @ CHR '':'' # t) = s # split_colon t"
  by (induction s) auto

lemma split_colon_three:
  assumes "CHR '':'' \<notin> set r" "CHR '':'' \<notin> set a" "CHR '':'' \<notin> set s"
  shows "split_colon (r @ '':'' @ a @ '':'' @ s) = [r, a, s]"
  using assms by (simp add: split_colon_append split_colon_no_colon)

lemma resource_own:
  "r \<in> set ResourceType \<Longrightarrow>
     (\<exists>d. js_get RESOURCE_DEFINITIONS r = Own d) \<and> CHR '':'' \<notin> set r \<and> r \<noteq> []"
  unfolding ResourceType_def
  by (auto simp: js_get_def RESOURCE_DEFINITIONS_def)

lemma action_own:
  "a \<in> set AllPermissionActions \<Longrightarrow>
     (\<exists>d. js_get ACTION_DEFINITIONS a = Own d) \<and> CHR '':'' \<notin> set a \<and> a \<noteq> []"
  unfolding AllPermissionActions_def PermissionAction_def AdvancedPermissionAction_def
  by (auto simp: js_get_def ACTION_DEFINITIONS_def)

lemma scope_own:
  "s \<in> set PermissionScope \<Longrightarrow>
     (\<exists>d. js_get SCOPE_DEFINITIONS s = Own d) \<and> CHR '':'' \<notin> set s \<and> s \<noteq> []"
  unfolding PermissionScope_def
  by (auto simp: js_get_def SCOPE_DEFINITIONS_def)

lemma createPermissionClaim_valid:
  assumes "r \<in> set ResourceType" "a \<in> set AllPermissionActions" "s \<in> set PermissionScope"
  shows "createPermissionClaim r a s = Inr (r @ '':'' @ a @ '':'' @ s)"
proof -
  from resource_own [OF assms(1)] obtain d where "js_get RESOURCE_DEFINITIONS r = Own d" "r \<noteq> []"
    by blast
  moreover from action_own [OF assms(2)] obtain e where "js_get ACTION_DEFINITIONS a = Own e" "a \<noteq> []"
    by blast
  moreover from scope_own [OF assms(3)] obtain f where "js_get SCOPE_DEFINITIONS s = Own f" "s \<noteq> []"
    by blast
  ultimately show ?thesis
    by (simp add: createPermissionClaim_def)
qed

lemma parsePermissionClaim_valid:
  assumes "r \<in> set ResourceType" "a \<in> set AllPermissionActions" "s \<in> set PermissionScope"
  shows "parsePermissionClaim (r @ '':'' @ a @ '':'' @ s) = Inr (r, a, s)"
proof -
  from resource_own [OF assms(1)] obtain d where r: "js_get RESOURCE_DEFINITIONS r = Own d"
    "CHR '':'' \<notin> set r" "r \<noteq> []"
    by blast
  from action_own [OF assms(2)] obtain e where a: "js_get ACTION_DEFINITIONS a = Own e"
    "CHR '':'' \<notin> set a"
    by blast
  from scope_own [OF assms(3)] obtain f where s: "js_get SCOPE_DEFINITIONS s = Own f"
    "CHR '':'' \<notin> set s"
    by blast
  have "split_colon (r @ '':'' @ a @ '':'' @ s) = [r, a, s]"
    using r(2) a(2) s(2) by (rule split_colon_three)
  then show ?thesis
    using r a s by (simp add: parsePermissionClaim_def)
qed

text \<open>
  Claim C2. For every valid triple (resource, action, scope), each component a member of
  its enumeration, creating the claim succeeds and parsing the created claim succeeds
  and returns exactly the triple.
\<close>

theorem C2_roundtrip:
  assumes "r \<in> set ResourceType" "a \<in> set AllPermissionActions" "s \<in> set PermissionScope"
  shows "\<exists>c. createPermissionClaim r a s = Inr c \<and> parsePermissionClaim c = Inr (r, a, s)"
  using createPermissionClaim_valid [OF assms] parsePermissionClaim_valid [OF assms]
  by simp

theorem C2_roundtrip_witness:
  "''member'' \<in> set ResourceType \<and> ''view'' \<in> set AllPermissionActions \<and>
   ''assigned'' \<in> set PermissionScope \<and>
   (\<exists>c. createPermissionClaim ''member'' ''view'' ''assigned'' = Inr c \<and>
        parsePermissionClaim c = Inr (''member'', ''view'', ''assigned''))"
proof -
  have 1: "''member'' \<in> set ResourceType" by (simp add: ResourceType_def)
  have 2: "''view'' \<in> set AllPermissionActions"
    by (simp add: AllPermissionActions_def PermissionAction_def)
  have 3: "''assigned'' \<in> set PermissionScope" by (simp add: PermissionScope_def)
  from C2_roundtrip [OF 1 2 3] 1 2 3 show ?thesis by blast
qed

lemma length_split_colon:
  "length (split_colon c) = Suc (count_list c (CHR '':''))"
  by (induction c) (auto split: list.splits)

lemma keys_RESOURCE_DEFINITIONS: "fst ` set RESOURCE_DEFINITIONS = set ResourceType"
  by (simp add: RESOURCE_DEFINITIONS_def ResourceType_def)

lemma keys_ACTION_DEFINITIONS: "fst ` set ACTION_DEFINITIONS = set AllPermissionActions"
  by (simp add: ACTION_DEFINITIONS_def AllPermissionActions_def PermissionAction_def
      AdvancedPermissionAction_def)

lemma keys_SCOPE_DEFINITIONS: "fst ` set SCOPE_DEFINITIONS = set PermissionScope"
  by (auto simp: SCOPE_DEFINITIONS_def PermissionScope_def)

lemma truthy_js_get:
  "truthy (js_get table key) \<longleftrightarrow> key \<in> fst ` set table \<or> key \<in> set Object_prototype_keys"
proof (cases "map_of table key")
  case None
  then have "key \<notin> fst ` set table"
    by (simp add: map_of_eq_None_iff)
  then show ?thesis
    unfolding js_get_def None by simp
next
  case (Some v)
  then have "key \<in> fst ` set table"
    by (metis map_of_eq_None_iff option.distinct(1))
  then show ?thesis
    unfolding js_get_def Some by simp
qed

lemma isPermissionStronger_asym:
  "isPermissionStronger permA permB \<Longrightarrow> \<not> isPermissionStronger permB permA"
proof
  assume ab: "isPermissionStronger permA permB" and ba: "isPermissionStronger permB permA"
  from ab obtain resA actA scopeA where pa: "parsePermissionClaim permA = Inr (resA, actA, scopeA)"
    by (auto simp: isPermissionStronger_def split: sum.splits)
  from ab pa obtain resB actB scopeB where pb: "parsePermissionClaim permB = Inr (resB, actB, scopeB)"
    by (auto simp: isPermissionStronger_def split: sum.splits)
  from ab ba pa pb show False
    by (simp add: isPermissionStronger_def split: if_splits)
qed

lemma isPermissionStronger_valid:
  assumes "r1 \<in> set ResourceType" "a1 \<in> set AllPermissionActions" "s1 \<in> set PermissionScope"
    and "r2 \<in> set ResourceType" "a2 \<in> set AllPermissionActions" "s2 \<in> set PermissionScope"
  shows "isPermissionStronger (r1 @ '':'' @ a1 @ '':'' @ s1) (r2 @ '':'' @ a2 @ '':'' @ s2) =
           (if r1 \<noteq> r2 then False
            else if a1 \<noteq> a2 then riskOrder (actionRiskLevel a1) > riskOrder (actionRiskLevel a2)
            else scopeLevel s1 > scopeLevel s2)"
  using parsePermissionClaim_valid [OF assms(1-3)] parsePermissionClaim_valid [OF assms(4-6)]
  by (simp add: isPermissionStronger_def)

lemma scopeLevel_spec:
  "s \<in> set PermissionScope \<Longrightarrow> scopeLevel s = spec_scopeBreadth s"
  unfolding PermissionScope_def
  by (auto simp: scopeLevel_def js_get_def SCOPE_DEFINITIONS_def spec_scopeBreadth_def)

lemma riskOrder_spec: "riskOrder x > riskOrder y \<longleftrightarrow> spec_riskHigher x y"
  by (cases x; cases y) simp_all

lemma member_defs:
  "''employee'' \<in> set ResourceType" "''member'' \<in> set ResourceType"
  "''service'' \<in> set ResourceType"
  "''view'' \<in> set AllPermissionActions" "''delete'' \<in> set AllPermissionActions"
  "''all'' \<in> set PermissionScope" "''assigned'' \<in> set PermissionScope"
  by (simp_all add: ResourceType_def AllPermissionActions_def PermissionAction_def PermissionScope_def)

text \<open>
  Claim C5, as the specification states it, fails: a string with exactly two colons and
  an empty segment is not answered with the format error but with the error for the
  empty segment, and the empty string is answered with the error for a missing claim.
\<close>

theorem C5_counterexample:
  "split_colon ''employee::all'' = [''employee'', [], ''all''] \<and>
   parsePermissionClaim ''employee::all'' = Inl (UnknownAction []) \<and>
   parsePermissionClaim [] = Inl Required"
  by (simp add: parsePermissionClaim_def js_get_def RESOURCE_DEFINITIONS_def ACTION_DEFINITIONS_def
      Object_prototype_keys_def)

text \<open>
  Claim C5, amended. The empty string fails with the error for a missing claim. A
  string that is not empty fails with the format error exactly when it does not hold
  exactly two colons, that is, when \<open>split(":")\<close> does not yield three segments, empty
  segments counted. A string of three segments, none of them the name of a property
  that every object inherits, fails with the error for an unknown resource, action or
  scope, naming the first segment (in this order) that is outside its enumeration, and
  otherwise succeeds with the three segments. Of a segment that names an inherited
  property nothing is stated.
\<close>

theorem C5_parse_cases:
  "(c = [] \<longrightarrow> parsePermissionClaim c = Inl Required) \<and>
   (c \<noteq> [] \<longrightarrow>
      (parsePermissionClaim c = Inl InvalidFormat \<longleftrightarrow> count_list c (CHR '':'') \<noteq> 2)) \<and>
   (\<forall>r a s. c = r @ '':'' @ a @ '':'' @ s \<and>
        CHR '':'' \<notin> set r \<and> CHR '':'' \<notin> set a \<and> CHR '':'' \<notin> set s \<and>
        r \<notin> set Object_prototype_keys \<and> a \<notin> set Object_prototype_keys \<and>
        s \<notin> set Object_prototype_keys \<longrightarrow>
      parsePermissionClaim c =
        (if r \<notin> set ResourceType then Inl (UnknownResource r)
         else if a \<notin> set AllPermissionActions then Inl (UnknownAction a)
         else if s \<notin> set PermissionScope then Inl (UnknownScope s)
         else Inr (r, a, s)))"
proof (intro conjI impI allI)
  assume "c = []"
  then show "parsePermissionClaim c = Inl Required"
    by (simp add: parsePermissionClaim_def)
next
  assume ne: "c \<noteq> []"
  have "parsePermissionClaim c = Inl InvalidFormat \<longleftrightarrow> length (split_colon c) \<noteq> 3"
    using ne by (auto simp: parsePermissionClaim_def split: list.splits)
  then show "parsePermissionClaim c = Inl InvalidFormat \<longleftrightarrow> count_list c (CHR '':'') \<noteq> 2"
    by (simp add: length_split_colon)
next
  fix r a s
  assume h: "c = r @ '':'' @ a @ '':'' @ s \<and>
        CHR '':'' \<notin> set r \<and> CHR '':'' \<notin> set a \<and> CHR '':'' \<notin> set s \<and>
        r \<notin> set Object_prototype_keys \<and> a \<notin> set Object_prototype_keys \<and>
        s \<notin> set Object_prototype_keys"
  then have sp: "split_colon c = [r, a, s]"
    using split_colon_three by blast
  from h have ne: "c \<noteq> []" by simp
  from h have np: "r \<notin> set Object_prototype_keys" "a \<notin> set Object_prototype_keys"
    "s \<notin> set Object_prototype_keys"
    by simp_all
  show "parsePermissionClaim c =
        (if r \<notin> set ResourceType then Inl (UnknownResource r)
         else if a \<notin> set AllPermissionActions then Inl (UnknownAction a)
         else if s \<notin> set PermissionScope then Inl (UnknownScope s)
         else Inr (r, a, s))"
    using ne sp np
    by (simp add: parsePermissionClaim_def truthy_js_get keys_RESOURCE_DEFINITIONS
        keys_ACTION_DEFINITIONS keys_SCOPE_DEFINITIONS)
qed

lemma not_inherited:
  "''badresource'' \<notin> set Object_prototype_keys" "''member'' \<notin> set Object_prototype_keys"
  "''view'' \<notin> set Object_prototype_keys" "''all'' \<notin> set Object_prototype_keys"
  by (simp_all add: Object_prototype_keys_def)

theorem C5_parse_cases_witness:
  "parsePermissionClaim ''a:b:c:d'' = Inl InvalidFormat \<and>
   parsePermissionClaim ''badresource:view:all'' = Inl (UnknownResource ''badresource'') \<and>
   parsePermissionClaim ''member:view:all'' = Inr (''member'', ''view'', ''all'')"
proof -
  have 1: "parsePermissionClaim ''a:b:c:d'' = Inl InvalidFormat"
    using C5_parse_cases [of "''a:b:c:d''"] by simp
  have nb: "''badresource'' \<notin> set ResourceType"
    by (simp add: ResourceType_def)
  have 2: "parsePermissionClaim ''badresource:view:all'' = Inl (UnknownResource ''badresource'')"
    using C5_parse_cases [of "''badresource:view:all''", THEN conjunct2, THEN conjunct2,
        rule_format, of "''badresource''" "''view''" "''all''"] nb not_inherited
    by simp
  have 3: "parsePermissionClaim ''member:view:all'' = Inr (''member'', ''view'', ''all'')"
    using C5_parse_cases [of "''member:view:all''", THEN conjunct2, THEN conjunct2,
        rule_format, of "''member''" "''view''" "''all''"] member_defs not_inherited
    by simp
  from 1 2 3 show ?thesis by blast
qed

lemma action_configured:
  assumes "a \<in> set AllPermissionActions"
  shows "\<exists>d. map_of ACTION_DEFINITIONS a = Some d \<and> actionRiskLevel a = act_riskLevel d"
proof -
  from action_own [OF assms] obtain d where d: "js_get ACTION_DEFINITIONS a = Own d"
    by blast
  then have "map_of ACTION_DEFINITIONS a = Some d"
    by (auto simp: js_get_def split: option.splits if_splits)
  with d show ?thesis
    by (simp add: actionRiskLevel_def)
qed

text \<open>
  Claim C7. For valid claims A and B, \<open>isPermissionStronger\<close> is false when the
  resources differ; with equal resources and different actions it is true exactly when
  the risk level that the configuration gives A's action ranks higher than the one it
  gives B's action (critical > high > medium > low); with equal resources and actions
  it is true exactly when A's scope is broader than B's in the order none=0 < owned=1 <
  assigned=2 < district=3 < department=4 < region=5 < all=6. The risk levels are read
  from the entries of \<open>ACTION_DEFINITIONS\<close>, not through the comparator's own lookup.
\<close>

theorem C7_isPermissionStronger:
  assumes "r1 \<in> set ResourceType" "a1 \<in> set AllPermissionActions" "s1 \<in> set PermissionScope"
    and "r2 \<in> set ResourceType" "a2 \<in> set AllPermissionActions" "s2 \<in> set PermissionScope"
  shows "\<exists>d1 d2. map_of ACTION_DEFINITIONS a1 = Some d1 \<and> map_of ACTION_DEFINITIONS a2 = Some d2 \<and>
           isPermissionStronger (r1 @ '':'' @ a1 @ '':'' @ s1) (r2 @ '':'' @ a2 @ '':'' @ s2) =
             (if r1 \<noteq> r2 then False
              else if a1 \<noteq> a2 then spec_riskHigher (act_riskLevel d1) (act_riskLevel d2)
              else spec_scopeBreadth s1 > spec_scopeBreadth s2)"
proof -
  from action_configured [OF assms(2)] obtain d1
    where d1: "map_of ACTION_DEFINITIONS a1 = Some d1" "actionRiskLevel a1 = act_riskLevel d1"
    by blast
  from action_configured [OF assms(5)] obtain d2
    where d2: "map_of ACTION_DEFINITIONS a2 = Some d2" "actionRiskLevel a2 = act_riskLevel d2"
    by blast
  have "isPermissionStronger (r1 @ '':'' @ a1 @ '':'' @ s1) (r2 @ '':'' @ a2 @ '':'' @ s2) =
             (if r1 \<noteq> r2 then False
              else if a1 \<noteq> a2 then spec_riskHigher (act_riskLevel d1) (act_riskLevel d2)
              else spec_scopeBreadth s1 > spec_scopeBreadth s2)"
    using isPermissionStronger_valid [OF assms] scopeLevel_spec [OF assms(3)]
      scopeLevel_spec [OF assms(6)] riskOrder_spec [of "act_riskLevel d2" "act_riskLevel d1"]
      d1(2) d2(2)
    by simp
  with d1(1) d2(1) show ?thesis
    by blast
qed

theorem C7_isPermissionStronger_witness:
  "''member'' \<in> set ResourceType \<and> ''service'' \<in> set ResourceType \<and>
   ''view'' \<in> set AllPermissionActions \<and> ''delete'' \<in> set AllPermissionActions \<and>
   ''all'' \<in> set PermissionScope \<and> ''assigned'' \<in> set PermissionScope \<and>
   isPermissionStronger ''member:delete:all'' ''member:view:all'' \<and>
   \<not> isPermissionStronger ''member:view:all'' ''member:delete:all'' \<and>
   isPermissionStronger ''member:view:all'' ''member:view:assigned'' \<and>
   \<not> isPermissionStronger ''member:view:all'' ''service:view:all''"
proof -
  have v: "map_of ACTION_DEFINITIONS ''view'' = Some \<lparr>act_riskLevel = Low, act_category = Read\<rparr>"
    by (simp add: ACTION_DEFINITIONS_def)
  have d: "map_of ACTION_DEFINITIONS ''delete'' =
             Some \<lparr>act_riskLevel = Critical, act_category = Admin\<rparr>"
    by (simp add: ACTION_DEFINITIONS_def)
  have 1: "isPermissionStronger ''member:delete:all'' ''member:view:all''"
    using C7_isPermissionStronger [OF member_defs(2) member_defs(5) member_defs(6)
        member_defs(2) member_defs(4) member_defs(6)] v d
    by auto
  have 2: "\<not> isPermissionStronger ''member:view:all'' ''member:delete:all''"
    using C7_isPermissionStronger [OF member_defs(2) member_defs(4) member_defs(6)
        member_defs(2) member_defs(5) member_defs(6)] v d
    by auto
  have 3: "isPermissionStronger ''member:view:all'' ''member:view:assigned''"
    using C7_isPermissionStronger [OF member_defs(2) member_defs(4) member_defs(6)
        member_defs(2) member_defs(4) member_defs(7)]
    by (auto simp: spec_scopeBreadth_def)
  have 4: "\<not> isPermissionStronger ''member:view:all'' ''service:view:all''"
    using C7_isPermissionStronger [OF member_defs(2) member_defs(4) member_defs(6)
        member_defs(3) member_defs(4) member_defs(6)]
    by auto
  from 1 2 3 4 member_defs show ?thesis by blast
qed

text \<open>
  Claim C10. Over valid claims \<open>isPermissionStronger\<close> is irreflexive and asymmetric:
  no valid claim is stronger than itself, and of two valid claims never each is
  stronger than the other.
\<close>

theorem C10_irreflexive_asymmetric:
  assumes "r1 \<in> set ResourceType" "a1 \<in> set AllPermissionActions" "s1 \<in> set PermissionScope"
    and "r2 \<in> set ResourceType" "a2 \<in> set AllPermissionActions" "s2 \<in> set PermissionScope"
    and "createPermissionClaim r1 a1 s1 = Inr A" "createPermissionClaim r2 a2 s2 = Inr B"
  shows "\<not> isPermissionStronger A A \<and> \<not> (isPermissionStronger A B \<and> isPermissionStronger B A)"
  using isPermissionStronger_asym [of A A] isPermissionStronger_asym [of A B]
  by blast

theorem C10_irreflexive_asymmetric_witness:
  "createPermissionClaim ''member'' ''delete'' ''all'' = Inr ''member:delete:all'' \<and>
   createPermissionClaim ''member'' ''view'' ''all'' = Inr ''member:view:all'' \<and>
   \<not> isPermissionStronger ''member:delete:all'' ''member:delete:all'' \<and>
   \<not> (isPermissionStronger ''member:delete:all'' ''member:view:all'' \<and>
      isPermissionStronger ''member:view:all'' ''member:delete:all'')"
proof -
  have 1: "createPermissionClaim ''member'' ''delete'' ''all'' = Inr ''member:delete:all''"
    using createPermissionClaim_valid [OF member_defs(2) member_defs(5) member_defs(6)] by simp
  have 2: "createPermissionClaim ''member'' ''view'' ''all'' = Inr ''member:view:all''"
    using createPermissionClaim_valid [OF member_defs(2) member_defs(4) member_defs(6)] by simp
  from C10_irreflexive_asymmetric [OF member_defs(2) member_defs(5) member_defs(6)
      member_defs(2) member_defs(4) member_defs(6) 1 2] 1 2
  show ?thesis by blast
qed

section \<open>Properties of the role resolver\<close>

lemma set_fold_Set_add: "set (fold Set_add xs acc) = set xs \<union> set acc"
  by (induction xs arbitrary: acc) (auto simp: Set_add_def)

lemma distinct_fold_Set_add: "distinct acc \<Longrightarrow> distinct (fold Set_add xs acc)"
  by (induction xs arbitrary: acc) (auto simp: Set_add_def)

lemma set_new_Set: "set (new_Set xs) = set xs"
  by (simp add: new_Set_def set_fold_Set_add)

lemma distinct_new_Set: "distinct (new_Set xs)"
  by (simp add: new_Set_def distinct_fold_Set_add)

lemma card_visited_less:
  assumes "role_id role \<notin> visited" and "p \<in> set allRoles"
  shows "card (insert (role_id p) (role_id ` set allRoles) - insert (role_id role) visited)
           < card (insert (role_id role) (role_id ` set allRoles) - visited)"
proof -
  from assms(2) have "insert (role_id p) (role_id ` set allRoles) = role_id ` set allRoles"
    by auto
  moreover have "(role_id ` set allRoles) - insert (role_id role) visited
          \<subset> (insert (role_id role) (role_id ` set allRoles)) - visited"
    using assms(1) by auto
  ultimately show ?thesis
    by (simp add: psubset_card_mono)
qed

lemma getRoleEffectivePermissions_terminates:
  "getRoleEffectivePermissions_dom (role, allRoles, visited)"
proof -
  have "wfp getRoleEffectivePermissions_rel"
  proof (rule wfp_if_convertible_to_nat)
    fix x y
    assume "getRoleEffectivePermissions_rel x y"
    then show "(case x of (role, allRoles, visited) \<Rightarrow>
                  card (insert (role_id role) (role_id ` set allRoles) - visited))
             < (case y of (role, allRoles, visited) \<Rightarrow>
                  card (insert (role_id role) (role_id ` set allRoles) - visited))"
      by (cases rule: getRoleEffectivePermissions_rel.cases)
        (auto simp: find_Some_iff intro!: card_visited_less)
  qed
  then show ?thesis
    by (rule accp_wfpD)
qed

lemma roleHasPermission_terminates:
  "roleHasPermission_dom (role, c, allRoles, visited)"
proof -
  have "wfp roleHasPermission_rel"
  proof (rule wfp_if_convertible_to_nat)
    fix x y
    assume "roleHasPermission_rel x y"
    then show "(case x of (role, c, allRoles, visited) \<Rightarrow>
                  card (insert (role_id role) (role_id ` set allRoles) - visited))
             < (case y of (role, c, allRoles, visited) \<Rightarrow>
                  card (insert (role_id role) (role_id ` set allRoles) - visited))"
      by (cases rule: roleHasPermission_rel.cases)
        (auto simp: find_Some_iff intro!: card_visited_less)
  qed
  then show ?thesis
    by (rule accp_wfpD)
qed

lemma cycle_two_roles:
  assumes "role_id A \<noteq> role_id B" "role_isActive A" "role_isActive B"
    and "inheritsFrom A = Some [role_id B]" "inheritsFrom B = Some [role_id A]"
  shows "getRoleEffectivePermissions A [A, B] {} =
           fold Set_add (new_Set (permissions B)) (new_Set (permissions A))"
proof -
  have a: "getRoleEffectivePermissions A [A, B] {role_id B, role_id A} = []"
    by (simp add: getRoleEffectivePermissions.simps [of A])
  have b: "getRoleEffectivePermissions B [A, B] {role_id A} = new_Set (permissions B)"
    using assms a by (simp add: getRoleEffectivePermissions.simps [of B])
  show ?thesis
    using assms b by (simp add: getRoleEffectivePermissions.simps [of A])
qed

section \<open>Properties of the decision engine and the cache\<close>

lemma logAccessAttempt_returns:
  "logAccessAttempt user resource action scope granted reason = Inr ()"
  by (simp add: logAccessAttempt_def)

lemma hasPermission_try_throws_iff:
  "hasPermission_try user resource action scope allRoles options now_check now_store cache = (Inl e, cache')
   \<longleftrightarrow> (\<exists>usr. user = Some usr \<and> isActive usr) \<and>
        createPermissionClaim resource action scope = Inl e \<and> cache' = cache"
  by (auto simp: hasPermission_try_def logAccessAttempt_returns Let_def
      split: option.splits sum.splits)

lemma hasPermission_catch:
  "hasPermission user resource action scope allRoles options now_check now_store cache =
     (case hasPermission_try user resource action scope allRoles options now_check now_store cache of
        (Inr granted, cache') \<Rightarrow> (Inr granted, cache')
      | (Inl err, cache') \<Rightarrow> (Inr False, cache'))"
  by (simp add: hasPermission_def logAccessAttempt_returns split: prod.splits sum.splits)

lemma hasPermission_invalid:
  assumes "createPermissionClaim resource action scope = Inl e"
  shows "hasPermission user resource action scope allRoles options now_check now_store cache =
           (Inr False, cache)"
proof (cases "\<exists>usr. user = Some usr \<and> isActive usr")
  case True
  then have "hasPermission_try user resource action scope allRoles options now_check now_store cache
               = (Inl e, cache)"
    using assms by (simp add: hasPermission_try_throws_iff)
  then show ?thesis
    by (simp add: hasPermission_catch)
next
  case False
  then have "hasPermission_try user resource action scope allRoles options now_check now_store cache
               = (Inr False, cache)"
    by (auto simp: hasPermission_try_def logAccessAttempt_returns split: option.splits)
  then show ?thesis
    by (simp add: hasPermission_catch)
qed

lemma clearPermissionCache_frame:
  "uid \<noteq> [] \<Longrightarrow> \<not> prefix (uid @ '':'') key \<Longrightarrow>
     clearPermissionCache (Some uid) cache key = cache key"
  by (simp add: clearPermissionCache_def)

lemma clearPermissionCache_removes:
  "clearPermissionCache (Some uid) cache (uid @ '':'' @ claim) = None"
  by (simp add: clearPermissionCache_def)

lemma clearPermissionCache_all: "clearPermissionCache None cache = Map.empty"
  by (simp add: clearPermissionCache_def)

lemma other_principal_key:
  assumes "CHR '':'' \<notin> set p" and "CHR '':'' \<notin> set q" and "q \<noteq> p"
  shows "\<not> prefix (p @ '':'') (q @ '':'' @ claim)"
proof
  assume "prefix (p @ '':'') (q @ '':'' @ claim)"
  then obtain z where "q @ CHR '':'' # claim = p @ CHR '':'' # z"
    by (auto simp: prefix_def)
  then show False
    using assms
    by (auto simp: append_eq_append_conv2 Cons_eq_append_conv append_eq_Cons_conv)
qed

section \<open>The claims about roles\<close>

text \<open>
  Claim C3, evaluated. The two functions disagree on an inactive role:
  \<open>roleHasPermission\<close> tests \<open>role.isActive\<close> and denies the role every claim, while
  \<open>getRoleEffectivePermissions\<close> tests the activity of parents only and lists the
  permissions of the inactive role it is asked about.
\<close>

theorem C3_inactive_role_disagreement:
  "\<not> role_isActive retiredRole \<and>
   getRoleEffectivePermissions retiredRole [retiredRole] {} = [''member:view:all''] \<and>
   \<not> roleHasPermission retiredRole ''member:view:all'' [retiredRole] {}"
  by (simp add: roleHasPermission.simps getRoleEffectivePermissions.simps retiredRole_def
      new_Set_def Set_add_def)

text \<open>
  Claim C6. Role-inheritance resolution terminates on every role set: every input is
  in the domain of the recursion of \<open>getRoleEffectivePermissions\<close> and of
  \<open>roleHasPermission\<close>, cycles included. For two active roles A and B with different
  ids, where A inherits from B and B from A, \<open>getRoleEffectivePermissions(A, [A, B])\<close>
  is exactly the union of the permissions of A and of B, each listed once.
\<close>

theorem C6_cycle_safety:
  "getRoleEffectivePermissions_dom (role, allRoles, visited) \<and>
   roleHasPermission_dom (role, c, allRoles, visited) \<and>
   (role_id A \<noteq> role_id B \<and> role_isActive A \<and> role_isActive B \<and>
    inheritsFrom A = Some [role_id B] \<and> inheritsFrom B = Some [role_id A] \<longrightarrow>
      set (getRoleEffectivePermissions A [A, B] {}) = set (permissions A) \<union> set (permissions B) \<and>
      distinct (getRoleEffectivePermissions A [A, B] {}))"
  using getRoleEffectivePermissions_terminates roleHasPermission_terminates
  by (auto simp: cycle_two_roles set_fold_Set_add set_new_Set distinct_fold_Set_add distinct_new_Set)

theorem C6_cycle_safety_witness:
  "role_id roleA \<noteq> role_id roleB \<and> role_isActive roleA \<and> role_isActive roleB \<and>
   inheritsFrom roleA = Some [role_id roleB] \<and> inheritsFrom roleB = Some [role_id roleA] \<and>
   set (getRoleEffectivePermissions roleA [roleA, roleB] {}) =
     {''member:view:all'', ''service:view:all'', ''billing:view:all''}"
proof -
  have h: "role_id roleA \<noteq> role_id roleB \<and> role_isActive roleA \<and> role_isActive roleB \<and>
           inheritsFrom roleA = Some [role_id roleB] \<and> inheritsFrom roleB = Some [role_id roleA]"
    by (simp add: roleA_def roleB_def)
  have "set (permissions roleA) \<union> set (permissions roleB) =
          {''member:view:all'', ''service:view:all'', ''billing:view:all''}"
    by (auto simp: roleA_def roleB_def)
  with h C6_cycle_safety [of roleA "[roleA, roleB]" "{}" "''member:view:all''" roleA roleB]
  show ?thesis by simp
qed

section \<open>The claims about users, decisions and the cache\<close>

text \<open>
  Claim C4, evaluated. \<open>getUserEffectivePermissions\<close> never reads \<open>user.isActive\<close>:
  for this inactive user it lists the direct permission and the permissions of the
  user's role, each of which \<open>hasPermission\<close> denies to the same user.
\<close>

theorem C4_inactive_user_permissions:
  "\<not> isActive inactiveUser \<and>
   getUserEffectivePermissions inactiveUser [roleA, roleB] \<lparr>opt_sortByRisk = False\<rparr> =
     [''employee:view:owned'', ''member:view:all'', ''service:view:all'', ''billing:view:all''] \<and>
   fst (hasPermission (Some inactiveUser) ''employee'' ''view'' ''owned'' [roleA, roleB]
          defaultOptions 0 0 Map.empty) = Inr False"
  by (simp add: getUserEffectivePermissions_def getRoleEffectivePermissions.simps
      hasPermission_def hasPermission_try_def defaultOptions_def
      inactiveUser_def roleA_def roleB_def new_Set_def Set_add_def)

text \<open>
  Claim C1, as the specification states it, fails: for an active user and a resource
  that is no resource, the validation error is caught; \<open>hasPermission\<close> returns false
  and \<open>checkAuthorization\<close> an unauthorized result, as for a denial.
\<close>

theorem C1_counterexample:
  "createPermissionClaim ''bogus'' ''view'' ''all'' = Inl (InvalidResource ''bogus'') \<and>
   fst (hasPermission (Some activeUser) ''bogus'' ''view'' ''all'' [roleA, roleB]
          defaultOptions 0 0 Map.empty) = Inr False \<and>
   fst (checkAuthorization (Some activeUser) ''bogus'' ''view'' ''all'' [roleA, roleB]
          False 0 0 Map.empty) =
     Inr \<lparr>authorized = False, error = Some ''Insufficient permissions: bogus:view:all''\<rparr>"
  by (simp add: checkAuthorization_def hasPermission_def hasPermission_try_def
      createPermissionClaim_def js_get_def RESOURCE_DEFINITIONS_def Object_prototype_keys_def
      defaultOptions_def activeUser_def)

text \<open>
  Claim C1, amended. Whenever the triple (resource, action, scope) fails claim
  validation, \<open>hasPermission\<close> catches the error and returns false, and
  \<open>checkAuthorization\<close> returns an unauthorized result with a message; neither passes
  the error to its caller, and the cache is left as it was.
\<close>

theorem C1_validation_failure_denied:
  assumes "createPermissionClaim resource action scope = Inl e"
  shows "hasPermission user resource action scope allRoles options now_check now_store cache =
           (Inr False, cache) \<and>
         (\<exists>message.
            checkAuthorization user resource action scope allRoles opt_log now_check now_store cache =
              (Inr \<lparr>authorized = False, error = Some message\<rparr>, cache))"
  using hasPermission_invalid [OF assms]
  by (simp add: checkAuthorization_def split: option.splits)

theorem C1_validation_failure_denied_witness:
  "createPermissionClaim ''member'' ''view'' ''everything'' = Inl (InvalidScope ''everything'') \<and>
   hasPermission (Some activeUser) ''member'' ''view'' ''everything'' [roleA, roleB]
     defaultOptions 0 0 Map.empty = (Inr False, Map.empty)"
proof -
  have c: "createPermissionClaim ''member'' ''view'' ''everything'' = Inl (InvalidScope ''everything'')"
    by (simp add: createPermissionClaim_def js_get_def RESOURCE_DEFINITIONS_def
        ACTION_DEFINITIONS_def SCOPE_DEFINITIONS_def Object_prototype_keys_def)
  from C1_validation_failure_denied [OF c, of "Some activeUser" "[roleA, roleB]" defaultOptions
      0 0 Map.empty False] c
  show ?thesis by simp
qed

text \<open>
  Claim C9. \<open>hasPermission\<close> never throws: for every input, strings outside the
  enumerations included, it returns a boolean, and whenever its \<open>try\<close> block throws,
  the boolean is false.
\<close>

theorem C9_hasPermission_total:
  "(\<exists>granted cache'.
      hasPermission user resource action scope allRoles options now_check now_store cache =
        (Inr granted, cache')) \<and>
   (\<forall>e cache'.
      hasPermission_try user resource action scope allRoles options now_check now_store cache =
        (Inl e, cache') \<longrightarrow>
      hasPermission user resource action scope allRoles options now_check now_store cache =
        (Inr False, cache'))"
proof (cases "hasPermission_try user resource action scope allRoles options now_check now_store cache")
  case (Pair res cache')
  then show ?thesis
    by (cases res) (auto simp: hasPermission_catch)
qed

theorem C9_hasPermission_total_witness:
  "hasPermission_try (Some activeUser) ''employee'' ''fly'' ''all'' [roleA, roleB]
     defaultOptions 0 0 Map.empty = (Inl (InvalidAction ''fly''), Map.empty) \<and>
   hasPermission (Some activeUser) ''employee'' ''fly'' ''all'' [roleA, roleB]
     defaultOptions 0 0 Map.empty = (Inr False, Map.empty)"
proof -
  have t: "hasPermission_try (Some activeUser) ''employee'' ''fly'' ''all'' [roleA, roleB]
     defaultOptions 0 0 Map.empty = (Inl (InvalidAction ''fly''), Map.empty)"
    by (simp add: hasPermission_try_def createPermissionClaim_def js_get_def
        RESOURCE_DEFINITIONS_def ACTION_DEFINITIONS_def Object_prototype_keys_def activeUser_def)
  from C9_hasPermission_total [of "Some activeUser" "''employee''" "''fly''" "''all''"
      "[roleA, roleB]" defaultOptions 0 0 Map.empty] t
  show ?thesis by simp
qed

text \<open>
  Claim C8, evaluated. The verdict that \<open>hasPermission\<close> stores for the user with id
  \<open>a:b\<close> has the key \<open>a:b:member:view:all\<close>, which starts with \<open>a:\<close>: clearing the
  cache for the user with id \<open>a\<close> deletes it. Clearing for the empty id empties the
  cache.
\<close>

theorem C8_other_principal_removed:
  "snd (hasPermission (Some colonUser) ''member'' ''view'' ''all'' [] defaultOptions 0 0 Map.empty)
     ''a:b:member:view:all'' = Some \<lparr>result = False, timestamp = 0\<rparr> \<and>
   clearPermissionCache (Some ''a'')
     (snd (hasPermission (Some colonUser) ''member'' ''view'' ''all'' [] defaultOptions 0 0 Map.empty))
     ''a:b:member:view:all'' = None \<and>
   clearPermissionCache (Some [])
     (snd (hasPermission (Some colonUser) ''member'' ''view'' ''all'' [] defaultOptions 0 0 Map.empty))
     = Map.empty"
  by (simp add: clearPermissionCache_def hasPermission_def hasPermission_try_def
      createPermissionClaim_def js_get_def RESOURCE_DEFINITIONS_def ACTION_DEFINITIONS_def
      SCOPE_DEFINITIONS_def defaultOptions_def colonUser_def)

end
